theory Spec2Isabelle
  imports Complex_Main
begin

section \<open>Object references and errors\<close>

text \<open>
  Objects of the program (pooled objects, vectors, option records, particles) are
  identified by references. \<open>new\<close> hands out a reference that was never handed out
  before; an allocator is a counter holding the next reference.
\<close>

type_synonym ref = nat

datatype error = ObjectNotProvidedError | InvalidArgumentError

definition bindE :: "error + 'a \<Rightarrow> ('a \<Rightarrow> error + 'b) \<Rightarrow> error + 'b" where
  "bindE m f = (case m of Inl e \<Rightarrow> Inl e | Inr a \<Rightarrow> f a)"

section \<open>Pool (src/utils/Pool.ts)\<close>

text \<open>
  The three private arrays of the class, its capacity, and the allocator that
  \<open>createObject\<close> (\<open>new this.ObjectClass(this.options)\<close>) draws from.
  The capacity is a natural number.
\<close>

record Pool =
  allObjects :: "ref list"
  activeObjects :: "ref list"
  inactiveObjects :: "ref list"
  maxSize :: nat
  nextObject :: ref

text \<open>\<open>createObject\<close>: a fresh instance.\<close>

definition createObject :: "Pool \<Rightarrow> ref \<times> Pool" where
  "createObject p = (nextObject p, p\<lparr>nextObject := Suc (nextObject p)\<rparr>)"

text \<open>
  \<open>init\<close>: the loop \<open>for (index = 0; index < maxSize; index++)\<close>; the first argument
  counts the iterations that remain.
\<close>

fun init_loop :: "nat \<Rightarrow> Pool \<Rightarrow> Pool" where
  "init_loop 0 p = p"
| "init_loop (Suc k) p =
     (let (newObject, p1) = createObject p
      in init_loop k (p1\<lparr>allObjects := allObjects p1 @ [newObject],
                         inactiveObjects := inactiveObjects p1 @ [newObject]\<rparr>))"

definition init :: "Pool \<Rightarrow> Pool" where
  "init p = init_loop (maxSize p) p"

text \<open>
  The constructor. \<open>ObjectClass\<close> says whether a class was passed (a falsy value
  throws); \<open>alloc\<close> is the state of the allocator when the pool is built.
\<close>

definition Pool_constructor :: "bool \<Rightarrow> nat \<Rightarrow> ref \<Rightarrow> error + Pool" where
  "Pool_constructor ObjectClass maxSize' alloc =
     (if \<not> ObjectClass then Inl ObjectNotProvidedError
      else Inr (init \<lparr>allObjects = [], activeObjects = [], inactiveObjects = [],
                      maxSize = maxSize', nextObject = alloc\<rparr>))"

text \<open>\<open>Array.prototype.indexOf\<close>: the first index holding the value, or \<open>-1\<close>.\<close>

fun indexOf :: "'a list \<Rightarrow> 'a \<Rightarrow> int" where
  "indexOf [] a = -1"
| "indexOf (x # xs) a =
     (if x = a then 0 else (let i = indexOf xs a in if i = -1 then -1 else i + 1))"

text \<open>\<open>splice(i, 1)\<close>: remove the element at index \<open>i\<close>.\<close>

definition splice1 :: "'a list \<Rightarrow> nat \<Rightarrow> 'a list" where
  "splice1 xs i = take i xs @ drop (Suc i) xs"

text \<open>\<open>acquire\<close>: \<open>None\<close> is the \<open>null\<close> of an exhausted pool.\<close>

definition acquire :: "Pool \<Rightarrow> ref option \<times> Pool" where
  "acquire p =
     (if length (inactiveObjects p) > 0 then
        (let object = last (inactiveObjects p);
             p1 = p\<lparr>inactiveObjects := butlast (inactiveObjects p)\<rparr>
         in (Some object, p1\<lparr>activeObjects := activeObjects p1 @ [object]\<rparr>))
      else if length (allObjects p) < maxSize p then
        (let (object, p1) = createObject p;
             p2 = p1\<lparr>allObjects := allObjects p1 @ [object]\<rparr>
         in (Some object, p2\<lparr>activeObjects := activeObjects p2 @ [object]\<rparr>))
      else (None, p))"

text \<open>\<open>release\<close>: the warning of the else branch is not part of the state.\<close>

definition release :: "ref \<Rightarrow> Pool \<Rightarrow> Pool" where
  "release object p =
     (let activeIndex = indexOf (activeObjects p) object
      in if activeIndex > -1 then
           (let p1 = p\<lparr>activeObjects := splice1 (activeObjects p) (nat activeIndex)\<rparr>
            in if indexOf (inactiveObjects p1) object = -1
               then p1\<lparr>inactiveObjects := inactiveObjects p1 @ [object]\<rparr>
               else p1)
         else p)"

text \<open>The getter \<open>length\<close>.\<close>

definition Pool_length :: "Pool \<Rightarrow> nat" where
  "Pool_length p = length (allObjects p)"

text \<open>Calls made on a pool from outside, and a run of them.\<close>

datatype pool_call = Acquire | Release ref

fun pool_step :: "Pool \<Rightarrow> pool_call \<Rightarrow> Pool" where
  "pool_step p Acquire = snd (acquire p)"
| "pool_step p (Release object) = release object p"

definition pool_run :: "Pool \<Rightarrow> pool_call list \<Rightarrow> Pool" where
  "pool_run p cs = foldl pool_step p cs"

text \<open>\<open>k\<close> calls of \<open>acquire\<close> in a row, the results dropped.\<close>

fun acquire_times :: "nat \<Rightarrow> Pool \<Rightarrow> Pool" where
  "acquire_times 0 p = p"
| "acquire_times (Suc k) p = acquire_times k (snd (acquire p))"

text \<open>
  What holds of every pool built by the constructor and used through \<open>acquire\<close> and
  \<open>release\<close> only.
\<close>

definition pool_inv :: "Pool \<Rightarrow> bool" where
  "pool_inv p \<longleftrightarrow>
     distinct (activeObjects p) \<and> distinct (inactiveObjects p) \<and>
     set (activeObjects p) \<inter> set (inactiveObjects p) = {} \<and>
     set (activeObjects p) \<union> set (inactiveObjects p) = set (allObjects p) \<and>
     distinct (allObjects p) \<and>
     length (allObjects p) = maxSize p \<and>
     (\<forall>r \<in> set (allObjects p). r < nextObject p)"

section \<open>Vector (utils/Vector)\<close>

text \<open>
  Numbers are real numbers: the rounding and the overflow of 64-bit floats are not
  part of the model. A vector object holds \<open>values: [number, number]\<close>; the setters of
  \<open>x\<close> and \<open>y\<close> replace a value that is not a finite number by \<open>0\<close>, which no real
  number is, so a setter stores what it is given.

  The values an argument list may hold: \<open>undefined\<close>, a finite number, the three numbers
  that are not finite, a \<open>Vector\<close> instance (with the values it holds at the call), an
  array, and \<open>Other\<close> for every other value (\<open>null\<close>, a string, a plain
  object).
\<close>

type_synonym Vector = "real \<times> real"

datatype jsval =
    Undefined
  | Num real
  | NaN
  | Infinity
  | NegInfinity
  | VectorObj Vector
  | Array "jsval list"
  | Other

definition get_x :: "Vector \<Rightarrow> real" where
  "get_x v = fst v"

definition get_y :: "Vector \<Rightarrow> real" where
  "get_y v = snd v"

definition set_x :: "real \<Rightarrow> Vector \<Rightarrow> Vector" where
  "set_x val v = (val, snd v)"

definition set_y :: "real \<Rightarrow> Vector \<Rightarrow> Vector" where
  "set_y val v = (fst v, val)"

text \<open>\<open>Vector.isNumber\<close>, \<open>Vector.isVector\<close>, \<open>Vector.isArray\<close>.\<close>

fun isNumber :: "jsval \<Rightarrow> bool" where
  "isNumber (Num r) = True"
| "isNumber _ = False"

fun isVector :: "jsval \<Rightarrow> bool" where
  "isVector (VectorObj v) = True"
| "isVector _ = False"

fun isArray :: "jsval \<Rightarrow> nat option \<Rightarrow> bool" where
  "isArray (Array xs) len =
     (if (case len of None \<Rightarrow> False | Some l \<Rightarrow> length xs \<noteq> l) then False
      else if \<not> list_all isNumber xs then False else True)"
| "isArray _ len = False"

text \<open>
  \<open>x[i]\<close> and \<open>x.length > n\<close>, on the values that reach them in \<open>processArgs\<close> (a
  vector or an array): an array has its elements and its length; a \<open>Vector\<close> instance
  has no indexed property and no \<open>length\<close>, so both are \<open>undefined\<close> and the
  comparison is false.
\<close>

fun element :: "jsval \<Rightarrow> nat \<Rightarrow> jsval" where
  "element (Array xs) i = (if i < length xs then xs ! i else Undefined)"
| "element _ i = Undefined"

fun length_gt :: "jsval \<Rightarrow> nat \<Rightarrow> bool" where
  "length_gt (Array xs) n = (n < length xs)"
| "length_gt _ n = False"

text \<open>
  \<open>v || 0.0\<close>, on the values that reach it (a finite number or \<open>undefined\<close>): a
  falsy value gives \<open>0.0\<close>, another number itself.
\<close>

fun orZero :: "jsval \<Rightarrow> real" where
  "orZero (Num r) = r"
| "orZero _ = 0"

text \<open>\<open>const [x = 0.0, y = 0.0] = args\<close>: a missing or undefined entry takes the default.\<close>

definition destructure :: "jsval list \<Rightarrow> nat \<Rightarrow> jsval" where
  "destructure args i =
     (if i < length args \<and> args ! i \<noteq> Undefined then args ! i else Num 0)"

text \<open>\<open>Vector.processArgs\<close>; the first argument is the global \<open>__DEBUG__\<close>.\<close>

definition processArgs :: "bool \<Rightarrow> jsval list \<Rightarrow> error + Vector" where
  "processArgs dbg args =
     (let x = destructure args 0; y = destructure args 1
      in if length args = 0 then Inr (0, 0)
         else if isVector x \<or> isArray x None then
           (let valX = orZero (element x 0);
                valY = orZero (if length_gt x 1 then element x 1 else Num valX)
            in Inr (valX, valY))
         else if length args = 2 \<and> isNumber x \<and> isNumber y then Inr (orZero x, orZero y)
         else if length args = 1 \<and> isNumber x then Inr (orZero x, orZero x)
         else if dbg then Inl InvalidArgumentError
         else Inr (0, 0))"

text \<open>
  The instance methods, as functions from the values \<open>this\<close> holds to the values it
  holds afterwards. The arguments are read before \<open>this\<close> is written.
\<close>

definition Vector_set :: "bool \<Rightarrow> real \<Rightarrow> real \<Rightarrow> Vector \<Rightarrow> error + Vector" where
  "Vector_set dbg a b this =
     bindE (processArgs dbg [Num a, Num b]) (\<lambda>r. Inr (set_y (snd r) (set_x (fst r) this)))"

text \<open>
  \<open>copy(arg)\<close>: with a vector, \<open>this\<close> takes its values; without an argument the
  method returns a clone and leaves \<open>this\<close> as it is.
\<close>

definition Vector_copy :: "bool \<Rightarrow> jsval \<Rightarrow> Vector \<Rightarrow> error + Vector" where
  "Vector_copy dbg arg this =
     (case arg of
        VectorObj v \<Rightarrow> Vector_set dbg (get_x v) (get_y v) this
      | _ \<Rightarrow> Inr this)"

definition Vector_add :: "bool \<Rightarrow> jsval list \<Rightarrow> Vector \<Rightarrow> error + Vector" where
  "Vector_add dbg args this =
     bindE (processArgs dbg args)
       (\<lambda>r. Inr (set_y (get_y (set_x (get_x this + fst r) this) + snd r)
                        (set_x (get_x this + fst r) this)))"

definition Vector_subtract :: "bool \<Rightarrow> jsval list \<Rightarrow> Vector \<Rightarrow> error + Vector" where
  "Vector_subtract dbg args this =
     bindE (processArgs dbg args)
       (\<lambda>r. Inr (set_y (get_y (set_x (get_x this - fst r) this) - snd r)
                        (set_x (get_x this - fst r) this)))"

definition Vector_multiply :: "bool \<Rightarrow> jsval list \<Rightarrow> Vector \<Rightarrow> error + Vector" where
  "Vector_multiply dbg args this =
     bindE (processArgs dbg args)
       (\<lambda>r. Inr (set_y (get_y (set_x (get_x this * fst r) this) * snd r)
                        (set_x (get_x this * fst r) this)))"

definition Vector_divide :: "bool \<Rightarrow> jsval list \<Rightarrow> Vector \<Rightarrow> error + Vector" where
  "Vector_divide dbg args this =
     bindE (processArgs dbg args)
       (\<lambda>r. let this1 = (if fst r \<noteq> 0 then set_x (get_x this / fst r) this else this);
                 this2 = (if snd r \<noteq> 0 then set_y (get_y this1 / snd r) this1 else this1)
             in Inr this2)"

definition magnitudeSq :: "Vector \<Rightarrow> real" where
  "magnitudeSq this = get_x this * get_x this + get_y this * get_y this"

definition magnitude :: "Vector \<Rightarrow> real" where
  "magnitude this = sqrt (magnitudeSq this)"

definition Vector_normalize :: "bool \<Rightarrow> Vector \<Rightarrow> error + Vector" where
  "Vector_normalize dbg this =
     (let mag = magnitude this
      in if mag \<noteq> 0 then Vector_multiply dbg [Num (1 / mag)] this else Inr this)"

text \<open>
  The constructor and \<open>Vector.create\<close>, as the values of the new object.
  \<open>create\<close> passes the pair it computed on to the constructor.
\<close>

definition Vector_constructor :: "bool \<Rightarrow> jsval list \<Rightarrow> error + Vector" where
  "Vector_constructor dbg args =
     bindE (processArgs dbg args) (\<lambda>r. Inr (set_y (snd r) (set_x (fst r) (0, 0))))"

definition Vector_create :: "bool \<Rightarrow> jsval list \<Rightarrow> error + Vector" where
  "Vector_create dbg args =
     bindE (processArgs dbg args) (\<lambda>r. Vector_constructor dbg [Num (fst r), Num (snd r)])"

text \<open>
  \<open>dot(...args)\<close> hands the array of its arguments, as one argument, to
  \<open>Vector.create\<close>.
\<close>

definition Vector_dot :: "bool \<Rightarrow> jsval list \<Rightarrow> Vector \<Rightarrow> error + real" where
  "Vector_dot dbg args this =
     bindE (Vector_create dbg [Array args])
       (\<lambda>v. Inr (get_x this * get_x v + get_y this * get_y v))"

text \<open>
  \<open>Vector.randomDirection\<close>; \<open>rnd\<close> is the number \<open>Math.random()\<close> returns.
\<close>

definition randomDirection :: "bool \<Rightarrow> real \<Rightarrow> error + Vector" where
  "randomDirection dbg rnd =
     (let angle = rnd * pi * 2
      in Vector_constructor dbg [Num (cos angle), Num (sin angle)])"

section \<open>Particle and Emitter\<close>

text \<open>
  The release callback a particle holds. \<open>EmitterRelease\<close> is the arrow function
  \<open>release\<close> of the emitter, which calls \<open>pool.release\<close>; \<open>Callback n\<close> is any other
  function, of which only the calls are recorded.
\<close>

datatype callback = EmitterRelease | Callback nat

text \<open>
  The fields of the options object that \<open>Particle\<close> reads and writes. \<open>gravity\<close> is a
  vector object.
\<close>

record Options =
  isStatic :: bool
  mass :: real
  lifespan :: real
  alpha :: real
  lifeRange_max :: real
  radius :: real
  density :: real
  friction :: real
  gravity :: ref

record Particle =
  options :: ref
  position :: ref
  prevPosition :: ref
  velocity :: ref
  acceleration :: ref
  callback :: "callback option"
  active :: bool

text \<open>
  The store: the vector objects with their allocator, the options objects, the
  particles (allocated by the pool of the emitter), the emitter's pool and position,
  the private static fields of \<open>Particle\<close>, the global \<open>__DEBUG__\<close>, and the record of
  the callbacks that were called, with the particle each was given.
\<close>

record World =
  DEBUG :: bool
  vectors :: "ref \<Rightarrow> Vector"
  nextVector :: ref
  optionss :: "ref \<Rightarrow> Options"
  particles :: "ref \<Rightarrow> Particle"
  pool :: Pool
  Emitter_position :: ref
  Particle_h :: real
  Particle_h2 :: real
  Particle_normalizationConstant :: real
  calls :: "(callback \<times> ref) list"

text \<open>The module constant \<open>zeroVector\<close> of Particle is the first vector allocated.\<close>

definition zeroVector :: ref where
  "zeroVector = 0"

text \<open>\<open>new Vector(a, b)\<close> and \<open>clone\<close>: a fresh vector object.\<close>

definition new_Vector :: "real \<Rightarrow> real \<Rightarrow> World \<Rightarrow> error + (ref \<times> World)" where
  "new_Vector a b w =
     bindE (Vector_constructor (DEBUG w) [Num a, Num b])
       (\<lambda>v. Inr (nextVector w,
                  w\<lparr>vectors := (vectors w)(nextVector w := v),
                    nextVector := Suc (nextVector w)\<rparr>))"

definition clone :: "ref \<Rightarrow> World \<Rightarrow> error + (ref \<times> World)" where
  "clone this w = new_Vector (get_x (vectors w this)) (get_y (vectors w this)) w"

text \<open>A method that writes \<open>this\<close>, called on the vector object \<open>this\<close>.\<close>

definition vector_call :: "(Vector \<Rightarrow> error + Vector) \<Rightarrow> ref \<Rightarrow> World \<Rightarrow> error + World" where
  "vector_call mth this w =
     bindE (mth (vectors w this)) (\<lambda>v. Inr (w\<lparr>vectors := (vectors w)(this := v)\<rparr>))"

text \<open>A vector object as an argument: the instance with the values it holds now.\<close>

definition vector_arg :: "ref \<Rightarrow> World \<Rightarrow> jsval" where
  "vector_arg r w = VectorObj (vectors w r)"

definition update_particle :: "ref \<Rightarrow> (Particle \<Rightarrow> Particle) \<Rightarrow> World \<Rightarrow> World" where
  "update_particle this f w = w\<lparr>particles := (particles w)(this := f (particles w this))\<rparr>"

definition update_options :: "ref \<Rightarrow> (Options \<Rightarrow> Options) \<Rightarrow> World \<Rightarrow> World" where
  "update_options r f w = w\<lparr>optionss := (optionss w)(r := f (optionss w r))\<rparr>"

definition options_of :: "ref \<Rightarrow> World \<Rightarrow> Options" where
  "options_of this w = optionss w (options (particles w this))"

text \<open>
  The constructor of \<open>Particle\<close>: every vector field starts as \<open>zeroVector\<close>. (The
  \<open>id\<close> string is not modelled; the reference is the identity.)
\<close>

definition Particle_constructor :: "ref \<Rightarrow> Particle" where
  "Particle_constructor opts =
     \<lparr>options = opts, position = zeroVector, prevPosition = zeroVector,
      velocity = zeroVector, acceleration = zeroVector, callback = None, active = False\<rparr>"


text \<open>Calling a callback with a particle.\<close>

definition invoke :: "callback \<Rightarrow> ref \<Rightarrow> World \<Rightarrow> World" where
  "invoke cb p w =
     (let w1 = w\<lparr>calls := calls w @ [(cb, p)]\<rparr>
      in case cb of
           EmitterRelease \<Rightarrow> w1\<lparr>pool := release p (pool w1)\<rparr>
         | Callback n \<Rightarrow> w1)"

definition destroy :: "ref \<Rightarrow> World \<Rightarrow> World" where
  "destroy this w =
     (let w1 = update_particle this (\<lambda>P. P\<lparr>active := False\<rparr>) w;
          w2 = (case callback (particles w1 this) of
                  Some cb \<Rightarrow> invoke cb this w1
                | None \<Rightarrow> w1)
      in update_particle this (\<lambda>P. P\<lparr>callback := None\<rparr>) w2)"

text \<open>The getter \<open>dead\<close>.\<close>

definition dead :: "ref \<Rightarrow> World \<Rightarrow> bool" where
  "dead this w = (lifespan (options_of this w) < 0)"

definition is_active :: "ref \<Rightarrow> World \<Rightarrow> bool" where
  "is_active this w = active (particles w this)"

text \<open>
  \<open>applyForce(force)\<close>: \<open>Vector.divide(force, mass)\<close> builds a vector with
  \<open>Vector.create(force)\<close> and divides it; the accumulated acceleration then adds that
  vector.
\<close>

definition applyForce :: "ref \<Rightarrow> ref \<Rightarrow> World \<Rightarrow> error + World" where
  "applyForce force this w =
     (if isStatic (options_of this w) then Inr w
      else bindE (Vector_create (DEBUG w) [vector_arg force w]) (\<lambda>t.
           bindE (new_Vector (get_x t) (get_y t) w) (\<lambda>target.
           bindE (vector_call (Vector_divide (DEBUG w) [Num (mass (options_of this w))])
                    (fst target) (snd target)) (\<lambda>w1.
           vector_call (Vector_add (DEBUG w1) [vector_arg (fst target) w1])
             (acceleration (particles w1 this)) w1))))"

text \<open>\<open>Utility.eulerUpdate(p, dt)\<close>: returns \<open>(newPosition, oldPosition)\<close>.\<close>

definition eulerUpdate :: "ref \<Rightarrow> real \<Rightarrow> World \<Rightarrow> error + ((ref \<times> ref) \<times> World)" where
  "eulerUpdate p dt w =
     bindE (clone (position (particles w p)) w) (\<lambda>old.
     bindE (clone (position (particles (snd old) p)) (snd old)) (\<lambda>new.
     let oldPosition = fst old; newPosition = fst new; w2 = snd new
     in bindE (vector_call (Vector_add (DEBUG w2) [vector_arg (velocity (particles w2 p)) w2])
                 newPosition w2) (\<lambda>w3.
        bindE (applyForce (gravity (options_of p w3)) p w3) (\<lambda>w4.
        bindE (vector_call (Vector_multiply (DEBUG w4) [Num (dt * dt)])
                 (acceleration (particles w4 p)) w4) (\<lambda>w5.
        bindE (vector_call (Vector_add (DEBUG w5) [vector_arg (acceleration (particles w5 p)) w5])
                 (velocity (particles w5 p)) w5) (\<lambda>w6.
        bindE (vector_call (Vector_multiply (DEBUG w6) [Num 0])
                 (acceleration (particles w6 p)) w6) (\<lambda>w7.
        Inr ((newPosition, oldPosition), w7))))))))"

text \<open>\<open>Particle.update(dt)\<close>.\<close>

definition update :: "real \<Rightarrow> ref \<Rightarrow> World \<Rightarrow> error + World" where
  "update dt this w =
     bindE (eulerUpdate this dt w) (\<lambda>r.
       let newPosition = fst (fst r); oldPosition = snd (fst r);
           w1 = update_particle this (\<lambda>P. P\<lparr>prevPosition := oldPosition\<rparr>) (snd r);
           w2 = update_particle this (\<lambda>P. P\<lparr>position := newPosition\<rparr>) w1;
           opts = options (particles w2 this);
           w3 = update_options opts (\<lambda>Op. Op\<lparr>lifespan := lifespan Op - dt\<rparr>) w2;
           w4 = update_options opts
                  (\<lambda>Op. Op\<lparr>alpha := lifespan Op / (2 * lifeRange_max Op)\<rparr>) w3
       in Inr (if lifespan (optionss w4 opts) < 0 then destroy this w4 else w4))"

text \<open>\<open>update\<close> called once for each time step of a list, in order.\<close>

fun update_all :: "real list \<Rightarrow> ref \<Rightarrow> World \<Rightarrow> error + World" where
  "update_all [] this w = Inr w"
| "update_all (dt # dts) this w =
     (case update dt this w of Inl e \<Rightarrow> Inl e | Inr w1 \<Rightarrow> update_all dts this w1)"

text \<open>
  \<open>v.dot(arg)\<close> on vector objects. (The vector \<open>Vector.create\<close> makes inside is
  not reachable after the call and is not kept in the store.)
\<close>

definition dot :: "ref \<Rightarrow> ref \<Rightarrow> World \<Rightarrow> error + real" where
  "dot this arg w = Vector_dot (DEBUG w) [vector_arg arg w] (vectors w this)"

text \<open>
  \<open>Particle.checkCollision(other)\<close>; \<open>rnd\<close> is the number \<open>Math.random()\<close> returns
  when the distance is zero. \<open>collisionNormal\<close>, \<open>correctionVector\<close>, \<open>vRel\<close> and
  \<open>impulse\<close> are all the object \<open>zeroVector\<close>.
\<close>

definition checkCollision :: "real \<Rightarrow> ref \<Rightarrow> ref \<Rightarrow> World \<Rightarrow> error + World" where
  "checkCollision rnd other this w =
     bindE (vector_call (Vector_copy (DEBUG w) (vector_arg (position (particles w other)) w))
              zeroVector w) (\<lambda>w1.
     bindE (vector_call (Vector_subtract (DEBUG w1)
              [vector_arg (position (particles w1 this)) w1]) zeroVector w1) (\<lambda>w2.
     let sumRadius = radius (options_of this w2) + radius (options_of other w2);
         distance = magnitude (vectors w2 zeroVector)
     in if distance < sumRadius then
          (let overlap = sumRadius - distance
           in if distance = 0 then
                bindE (randomDirection (DEBUG w2) rnd) (\<lambda>d.
                bindE (new_Vector (get_x d) (get_y d) w2) (\<lambda>r.
                bindE (vector_call (Vector_multiply (DEBUG w2) [Num (overlap / 2)])
                         (fst r) (snd r)) (\<lambda>w3.
                bindE (vector_call (Vector_add (DEBUG w3) [vector_arg (fst r) w3])
                         (position (particles w3 this)) w3) (\<lambda>w4.
                vector_call (Vector_subtract (DEBUG w4) [vector_arg (fst r) w4])
                  (position (particles w4 other)) w4))))
              else
                bindE (vector_call (Vector_normalize (DEBUG w2)) zeroVector w2) (\<lambda>w3.
                bindE (vector_call (Vector_multiply (DEBUG w3) [Num (overlap / 2)])
                         zeroVector w3) (\<lambda>w4.
                bindE (vector_call (Vector_add (DEBUG w4) [vector_arg zeroVector w4])
                         (position (particles w4 this)) w4) (\<lambda>w5.
                bindE (vector_call (Vector_subtract (DEBUG w5) [vector_arg zeroVector w5])
                         (position (particles w5 other)) w5) (\<lambda>w6.
                bindE (vector_call (Vector_copy (DEBUG w6)
                         (vector_arg (velocity (particles w6 this)) w6)) zeroVector w6) (\<lambda>w7.
                bindE (vector_call (Vector_subtract (DEBUG w7)
                         [vector_arg (velocity (particles w7 other)) w7]) zeroVector w7) (\<lambda>w8.
                bindE (dot zeroVector zeroVector w8) (\<lambda>speed.
                if speed \<noteq> 0 \<and> speed < 0 then
                  (let mSum = mass (options_of this w8) + mass (options_of other w8);
                       mThisRatio = 2 * mass (options_of other w8) / mSum;
                       mOtherRatio = 2 * mass (options_of this w8) / mSum
                   in bindE (vector_call (Vector_multiply (DEBUG w8) [Num speed])
                               zeroVector w8) (\<lambda>w9.
                      bindE (vector_call (Vector_copy (DEBUG w9)
                               (vector_arg zeroVector w9)) zeroVector w9) (\<lambda>w10.
                      bindE (vector_call (Vector_multiply (DEBUG w10) [Num mThisRatio])
                               zeroVector w10) (\<lambda>w11.
                      bindE (vector_call (Vector_subtract (DEBUG w11)
                               [vector_arg zeroVector w11])
                               (velocity (particles w11 this)) w11) (\<lambda>w12.
                      bindE (vector_call (Vector_multiply (DEBUG w12) [Num mOtherRatio])
                               zeroVector w12) (\<lambda>w13.
                      vector_call (Vector_add (DEBUG w13) [vector_arg zeroVector w13])
                        (velocity (particles w13 other)) w13))))))
                else Inr w8))))))))
        else Inr w2))"

text \<open>The static density functions of \<open>Particle\<close>.\<close>

definition poly6KernelSq :: "real \<Rightarrow> World \<Rightarrow> real" where
  "poly6KernelSq r2 w =
     (if r2 > Particle_h2 w then 0
      else (let diff = Particle_h2 w - r2
            in Particle_normalizationConstant w * diff * diff * diff))"

definition setSmoothingRadius :: "real \<Rightarrow> World \<Rightarrow> World" where
  "setSmoothingRadius h w =
     (let w1 = w\<lparr>Particle_h := h\<rparr>;
          w2 = w1\<lparr>Particle_h2 := h * h\<rparr>;
          h4 = Particle_h2 w2 * Particle_h2 w2;
          h8 = h4 * h4
      in w2\<lparr>Particle_normalizationConstant := (4 / pi) / h8\<rparr>)"

text \<open>
  \<open>calculateDensities\<close>: the inner loop over \<open>p2\<close> for one \<open>p1\<close>, the outer loop over
  \<open>p1\<close>, and the function.
\<close>

fun densities_inner :: "ref \<Rightarrow> ref \<Rightarrow> ref list \<Rightarrow> World \<Rightarrow> error + World" where
  "densities_inner tempVector p1 [] w = Inr w"
| "densities_inner tempVector p1 (p2 # rest) w =
     (if p1 = p2 then densities_inner tempVector p1 rest w
      else
        (case vector_call (Vector_copy (DEBUG w) (vector_arg (position (particles w p1)) w))
                tempVector w of
           Inl e \<Rightarrow> Inl e
         | Inr w1 \<Rightarrow>
             (case vector_call (Vector_subtract (DEBUG w1)
                     [vector_arg (position (particles w1 p2)) w1]) tempVector w1 of
                Inl e \<Rightarrow> Inl e
              | Inr w2 \<Rightarrow>
                  (let distanceSq = magnitudeSq (vectors w2 tempVector);
                       densityContribution =
                         mass (options_of p2 w2) * poly6KernelSq distanceSq w2
                   in densities_inner tempVector p1 rest
                        (update_options (options (particles w2 p1))
                           (\<lambda>Op. Op\<lparr>density := density Op + densityContribution\<rparr>) w2)))))"

fun densities_outer :: "ref \<Rightarrow> real \<Rightarrow> ref list \<Rightarrow> ref list \<Rightarrow> World \<Rightarrow> error + World" where
  "densities_outer tempVector kernel0 ps [] w = Inr w"
| "densities_outer tempVector kernel0 ps (p1 # rest) w =
     (case densities_inner tempVector p1 ps
             (update_options (options (particles w p1))
                (\<lambda>Op. Op\<lparr>density := mass Op * kernel0\<rparr>) w) of
        Inl e \<Rightarrow> Inl e
      | Inr w1 \<Rightarrow> densities_outer tempVector kernel0 ps rest w1)"

definition calculateDensities :: "ref list \<Rightarrow> real \<Rightarrow> World \<Rightarrow> error + World" where
  "calculateDensities ps smoothingRadius w =
     bindE (new_Vector 0 0 w) (\<lambda>t.
       let w1 = setSmoothingRadius smoothingRadius (snd t);
           kernel0 = poly6KernelSq 0 w1
       in densities_outer (fst t) kernel0 ps ps w1)"

text \<open>
  The Poly6 kernel in the words of the specification:
  \<open>normalization \<times> (h\<^sup>2 - r\<^sup>2)\<^sup>3\<close> for \<open>r\<^sup>2 \<le> h\<^sup>2\<close> and \<open>0\<close> otherwise, with
  normalization \<open>4 / (\<pi> h\<^sup>8)\<close>; the argument is \<open>r\<^sup>2\<close>.
\<close>

definition Poly6_spec :: "real \<Rightarrow> real \<Rightarrow> real" where
  "Poly6_spec h r2 = (if r2 \<le> h ^ 2 then 4 / (pi * h ^ 8) * (h ^ 2 - r2) ^ 3 else 0)"




section \<open>A store with two particles\<close>

text \<open>
  Two live particles \<open>0\<close> and \<open>1\<close> of mass \<open>2\<close> and radius \<open>1\<close> that share one options
  object (lifespan \<open>1\<close>, gravity \<open>(0, 2)\<close>), as the particles of one pool do. Particle
  \<open>0\<close> is at \<open>(1/2, 0)\<close> with velocity \<open>(-1, 0)\<close>, particle \<open>1\<close> at \<open>(1, 0)\<close> with
  velocity \<open>(1, 0)\<close>; their accumulated acceleration is the shared \<open>zeroVector\<close>, as
  the constructor leaves it.
\<close>

definition example_options :: Options where
  "example_options =
     \<lparr>isStatic = False, mass = 2, lifespan = 1, alpha = 1, lifeRange_max = 5,
      radius = 1, density = 0, friction = 0, gravity = 3\<rparr>"

definition example_vectors :: "ref \<Rightarrow> Vector" where
  "example_vectors =
     (\<lambda>r. (0, 0))(1 := (1/2, 0), 2 := (-1, 0), 3 := (0, 2), 4 := (1, 0), 5 := (1, 0),
                   6 := (1/2, 0), 7 := (1, 0), 8 := (5, 5))"

definition example_particles :: "ref \<Rightarrow> Particle" where
  "example_particles =
     (\<lambda>r. Particle_constructor 0)
       (0 := \<lparr>options = 0, position = 1, prevPosition = 6, velocity = 2,
               acceleration = zeroVector, callback = Some (Callback 0), active = True\<rparr>,
        1 := \<lparr>options = 0, position = 4, prevPosition = 7, velocity = 5,
               acceleration = zeroVector, callback = Some (Callback 0), active = True\<rparr>)"

definition example_world :: "bool \<Rightarrow> World" where
  "example_world dbg =
     \<lparr>DEBUG = dbg, vectors = example_vectors, nextVector = 9,
      optionss = (\<lambda>r. example_options), particles = example_particles,
      pool = \<lparr>allObjects = [0, 1], activeObjects = [0, 1], inactiveObjects = [],
               maxSize = 2, nextObject = 2\<rparr>,
      Emitter_position = 8, Particle_h = 0, Particle_h2 = 0,
      Particle_normalizationConstant = 0, calls = []\<rparr>"

text \<open>Reading a particle's vectors and the results of a call that may fail.\<close>

definition position_of :: "ref \<Rightarrow> World \<Rightarrow> Vector" where
  "position_of p w = vectors w (position (particles w p))"

definition prevPosition_of :: "ref \<Rightarrow> World \<Rightarrow> Vector" where
  "prevPosition_of p w = vectors w (prevPosition (particles w p))"

definition velocity_of :: "ref \<Rightarrow> World \<Rightarrow> Vector" where
  "velocity_of p w = vectors w (velocity (particles w p))"

definition acceleration_of :: "ref \<Rightarrow> World \<Rightarrow> Vector" where
  "acceleration_of p w = vectors w (acceleration (particles w p))"

definition result_of :: "(World \<Rightarrow> 'a) \<Rightarrow> error + World \<Rightarrow> error + 'a" where
  "result_of f r = (case r of Inl e \<Rightarrow> Inl e | Inr w \<Rightarrow> Inr (f w))"


section \<open>Pool: lemmas\<close>

lemma indexOf_absent: "a \<notin> set xs \<Longrightarrow> indexOf xs a = -1"
  by (induction xs) auto

lemma indexOf_ge: "indexOf xs a \<ge> -1"
  by (induction xs) (auto simp: Let_def)

lemma indexOf_present: "a \<in> set xs \<Longrightarrow> 0 \<le> indexOf xs a"
proof (induction xs)
  case Nil
  then show ?case by simp
next
  case (Cons x xs)
  show ?case
  proof (cases "x = a")
    case True
    then show ?thesis by simp
  next
    case False
    with Cons have "0 \<le> indexOf xs a" by simp
    with False show ?thesis by (simp add: Let_def)
  qed
qed

lemma indexOf_neg_iff: "indexOf xs a = -1 \<longleftrightarrow> a \<notin> set xs"
  using indexOf_present [of a xs] indexOf_absent [of a xs] by auto

lemma indexOf_gt_iff: "indexOf xs a > -1 \<longleftrightarrow> a \<in> set xs"
proof
  assume "indexOf xs a > -1"
  then have "indexOf xs a \<noteq> -1" by simp
  then show "a \<in> set xs" using indexOf_absent [of a xs] by blast
next
  assume "a \<in> set xs"
  then have "0 \<le> indexOf xs a" by (rule indexOf_present)
  then show "indexOf xs a > -1" by simp
qed

lemma splice1_indexOf: "a \<in> set xs \<Longrightarrow> splice1 xs (nat (indexOf xs a)) = remove1 a xs"
proof (induction xs)
  case Nil
  then show ?case by simp
next
  case (Cons x xs)
  show ?case
  proof (cases "x = a")
    case True
    then show ?thesis by (simp add: splice1_def)
  next
    case False
    with Cons.prems have mem: "a \<in> set xs" by simp
    then have nonneg: "0 \<le> indexOf xs a" by (rule indexOf_present)
    then have "nat (indexOf xs a + 1) = Suc (nat (indexOf xs a))" by simp
    moreover have "indexOf xs a \<noteq> -1" using nonneg by simp
    ultimately show ?thesis
      using False Cons.IH [OF mem] by (simp add: splice1_def Let_def)
  qed
qed

lemma splice1_last: "a \<notin> set ys \<Longrightarrow> splice1 (ys @ [a]) (nat (indexOf (ys @ [a]) a)) = ys"
  by (simp add: splice1_indexOf remove1_append)

lemma init_loop_fields:
  "allObjects (init_loop k p) = allObjects p @ [nextObject p ..< nextObject p + k] \<and>
   inactiveObjects (init_loop k p) = inactiveObjects p @ [nextObject p ..< nextObject p + k] \<and>
   activeObjects (init_loop k p) = activeObjects p \<and>
   maxSize (init_loop k p) = maxSize p \<and>
   nextObject (init_loop k p) = nextObject p + k"
proof (induction k arbitrary: p)
  case 0
  then show ?case by simp
next
  case (Suc k)
  have "[nextObject p ..< nextObject p + Suc k] =
        nextObject p # [Suc (nextObject p) ..< Suc (nextObject p) + k]"
    by (simp add: upt_rec)
  then show ?case
    by (simp add: Suc createObject_def)
qed

lemma constructor_fields:
  "Pool_constructor True n a = Inr p \<Longrightarrow>
     allObjects p = [a ..< a + n] \<and> inactiveObjects p = [a ..< a + n] \<and>
     activeObjects p = [] \<and> maxSize p = n \<and> nextObject p = a + n"
  by (auto simp: Pool_constructor_def init_def init_loop_fields)

lemma constructor_inv: "Pool_constructor True n a = Inr p \<Longrightarrow> pool_inv p"
  by (drule constructor_fields) (auto simp: pool_inv_def)

lemma acquire_inv: "pool_inv p \<Longrightarrow> pool_inv (snd (acquire p))"
proof -
  assume inv: "pool_inv p"
  show ?thesis
  proof (cases "inactiveObjects p = []")
    case True
    with inv show ?thesis
      by (auto simp: acquire_def pool_inv_def createObject_def)
  next
    case False
    then obtain ys b where split: "inactiveObjects p = ys @ [b]"
      by (metis append_butlast_last_id)
    with inv show ?thesis
      by (auto simp: acquire_def pool_inv_def)
  qed
qed

lemma release_inv: "pool_inv p \<Longrightarrow> pool_inv (release object p)"
proof -
  assume inv: "pool_inv p"
  show ?thesis
  proof (cases "object \<in> set (activeObjects p)")
    case False
    then show ?thesis
      using inv by (simp add: release_def indexOf_absent)
  next
    case True
    then have idx: "indexOf (activeObjects p) object > -1"
      by (simp add: indexOf_gt_iff)
    from True inv have notin: "object \<notin> set (inactiveObjects p)"
      by (auto simp: pool_inv_def)
    have rel: "release object p =
        p\<lparr>activeObjects := remove1 object (activeObjects p),
          inactiveObjects := inactiveObjects p @ [object]\<rparr>"
      using idx notin True
      by (simp add: release_def Let_def splice1_indexOf indexOf_absent)
    from inv True notin show ?thesis
      unfolding rel pool_inv_def by auto
  qed
qed

lemma pool_step_inv: "pool_inv p \<Longrightarrow> pool_inv (pool_step p c)"
  by (cases c) (simp_all add: acquire_inv release_inv)

lemma pool_run_inv: "pool_inv p \<Longrightarrow> pool_inv (pool_run p cs)"
  unfolding pool_run_def
  by (induction cs arbitrary: p) (simp_all add: pool_step_inv)

lemma acquire_maxSize: "maxSize (snd (acquire p)) = maxSize p"
  by (simp add: acquire_def Let_def createObject_def split: prod.splits)

lemma release_maxSize: "maxSize (release object p) = maxSize p"
  by (simp add: release_def Let_def)

lemma pool_run_maxSize: "maxSize (pool_run p cs) = maxSize p"
  unfolding pool_run_def
proof (induction cs arbitrary: p)
  case Nil
  then show ?case by simp
next
  case (Cons c cs)
  then show ?case by (cases c) (simp_all add: acquire_maxSize release_maxSize)
qed

lemma acquire_times_inv: "pool_inv p \<Longrightarrow> pool_inv (acquire_times k p)"
  by (induction k arbitrary: p) (simp_all add: acquire_inv)

lemma acquire_times_maxSize: "maxSize (acquire_times k p) = maxSize p"
  by (induction k arbitrary: p) (simp_all add: acquire_maxSize)

lemma acquire_times_inactive:
  "pool_inv p \<Longrightarrow> k \<le> length (inactiveObjects p) \<Longrightarrow>
   inactiveObjects (acquire_times k p) = take (length (inactiveObjects p) - k) (inactiveObjects p)"
proof (induction k arbitrary: p)
  case 0
  then show ?case by simp
next
  case (Suc k)
  let ?q = "snd (acquire p)"
  from Suc.prems have ne: "inactiveObjects p \<noteq> []" by auto
  then have q: "inactiveObjects ?q = butlast (inactiveObjects p)"
    by (simp add: acquire_def Let_def)
  have "pool_inv ?q" using Suc.prems(1) by (rule acquire_inv)
  moreover have "k \<le> length (inactiveObjects ?q)" using Suc.prems(2) q by simp
  ultimately have "inactiveObjects (acquire_times k ?q) =
      take (length (inactiveObjects ?q) - k) (inactiveObjects ?q)"
    by (rule Suc.IH)
  then show ?case
    using Suc.prems(2) q by (simp add: butlast_conv_take min_def)
qed

lemma inv_sizes:
  "pool_inv p \<Longrightarrow>
   length (activeObjects p) + length (inactiveObjects p) = length (allObjects p)"
proof -
  assume inv: "pool_inv p"
  then have d: "distinct (activeObjects p @ inactiveObjects p)"
    by (auto simp: pool_inv_def)
  from inv have s: "set (activeObjects p @ inactiveObjects p) = set (allObjects p)"
    by (auto simp: pool_inv_def)
  from inv have "distinct (allObjects p)" by (simp add: pool_inv_def)
  then have "length (allObjects p) = card (set (allObjects p))"
    by (simp add: distinct_card)
  also have "\<dots> = length (activeObjects p @ inactiveObjects p)"
    using d s by (metis distinct_card)
  finally show ?thesis by simp
qed

lemma acquire_all_unchanged: "pool_inv p \<Longrightarrow> allObjects (snd (acquire p)) = allObjects p"
  by (simp add: acquire_def Let_def pool_inv_def)

lemma acquire_times_all: "pool_inv p \<Longrightarrow> allObjects (acquire_times k p) = allObjects p"
  by (induction k arbitrary: p) (simp_all add: acquire_inv acquire_all_unchanged)

lemma acquire_nonempty:
  "inactiveObjects p \<noteq> [] \<Longrightarrow>
   acquire p = (Some (last (inactiveObjects p)),
                p\<lparr>inactiveObjects := butlast (inactiveObjects p),
                  activeObjects := activeObjects p @ [last (inactiveObjects p)]\<rparr>)"
  by (simp add: acquire_def Let_def)

lemma acquire_exhausted:
  "pool_inv p \<Longrightarrow> inactiveObjects p = [] \<Longrightarrow> acquire p = (None, p)"
  by (simp add: acquire_def pool_inv_def)

lemma acquire_Some_nonempty:
  assumes "pool_inv p" and "acquire p = (Some obj, p')"
  shows "inactiveObjects p \<noteq> []"
proof
  assume "inactiveObjects p = []"
  with assms(1) have "acquire p = (None, p)" by (rule acquire_exhausted)
  with assms(2) show False by simp
qed

section \<open>Pool: the claims\<close>

text \<open>
  C1. A pool freshly constructed with capacity \<open>n\<close>: each of the first \<open>n\<close> calls of
  \<open>acquire\<close> in a row (no \<open>release\<close> between them) returns an object of the pool, call
  \<open>n + 1\<close> returns \<open>null\<close>, and after construction and after any number of these calls
  the pool holds \<open>n\<close> objects, counted by the getter \<open>length\<close> and as active plus
  inactive. \<open>acquire (acquire_times k p)\<close> is call number \<open>k + 1\<close>.
\<close>

theorem C1_acquire_until_exhausted:
  assumes "Pool_constructor True n a = Inr p"
  shows "(\<forall>k<n. \<exists>obj. fst (acquire (acquire_times k p)) = Some obj \<and> obj \<in> set (allObjects p)) \<and>
         fst (acquire (acquire_times n p)) = None \<and>
         (\<forall>k. Pool_length (acquire_times k p) = n \<and>
              length (activeObjects (acquire_times k p)) +
              length (inactiveObjects (acquire_times k p)) = n)"
proof -
  from assms have inv: "pool_inv p" by (rule constructor_inv)
  from assms have fields: "inactiveObjects p = [a ..< a + n]" "allObjects p = [a ..< a + n]"
    "maxSize p = n"
    by (auto dest: constructor_fields)
  have inv_k: "pool_inv (acquire_times k p)" for k
    using inv by (rule acquire_times_inv)
  have all_k: "allObjects (acquire_times k p) = allObjects p" for k
    using inv by (rule acquire_times_all)
  have inact_k: "inactiveObjects (acquire_times k p) = take (n - k) [a ..< a + n]" if "k \<le> n" for k
    using acquire_times_inactive [OF inv, of k] that fields by simp
  have first: "\<exists>obj. fst (acquire (acquire_times k p)) = Some obj \<and> obj \<in> set (allObjects p)"
    if "k < n" for k
  proof -
    let ?q = "acquire_times k p"
    from that have "inactiveObjects ?q = take (n - k) [a ..< a + n]" by (simp add: inact_k)
    with that have ne: "inactiveObjects ?q \<noteq> []" by simp
    then have "last (inactiveObjects ?q) \<in> set (inactiveObjects ?q)" by simp
    moreover have "set (inactiveObjects ?q) \<subseteq> set (allObjects ?q)"
      using inv_k [of k] by (auto simp: pool_inv_def)
    ultimately have "last (inactiveObjects ?q) \<in> set (allObjects p)"
      using all_k [of k] by auto
    with ne show ?thesis by (simp add: acquire_nonempty)
  qed
  have last_call: "fst (acquire (acquire_times n p)) = None"
  proof -
    have "inactiveObjects (acquire_times n p) = []" by (simp add: inact_k)
    with inv_k [of n] show ?thesis by (simp add: acquire_exhausted)
  qed
  have sizes: "Pool_length (acquire_times k p) = n \<and>
      length (activeObjects (acquire_times k p)) +
      length (inactiveObjects (acquire_times k p)) = n" for k
    using inv_sizes [OF inv_k [of k]] all_k [of k] fields by (simp add: Pool_length_def)
  from first last_call sizes show ?thesis by blast
qed

text \<open>
  C2. After any sequence of \<open>acquire\<close> and \<open>release\<close> calls on a constructed pool
  (\<open>release\<close> with any argument), no object is both active and inactive, the active and
  the inactive objects together are exactly all pooled objects, and their number does
  not exceed the capacity.
\<close>

theorem C2_partition_invariant:
  assumes "Pool_constructor True n a = Inr p"
  shows "set (activeObjects (pool_run p cs)) \<inter> set (inactiveObjects (pool_run p cs)) = {} \<and>
         set (activeObjects (pool_run p cs)) \<union> set (inactiveObjects (pool_run p cs)) =
           set (allObjects (pool_run p cs)) \<and>
         length (allObjects (pool_run p cs)) \<le> maxSize (pool_run p cs) \<and>
         maxSize (pool_run p cs) = n"
proof -
  from assms have "pool_inv p" by (rule constructor_inv)
  then have "pool_inv (pool_run p cs)" by (rule pool_run_inv)
  moreover have "maxSize (pool_run p cs) = n"
    using assms by (simp add: pool_run_maxSize constructor_fields)
  ultimately show ?thesis by (simp add: pool_inv_def)
qed

text \<open>
  C7. In every state a constructed pool can reach through \<open>acquire\<close> and \<open>release\<close>: when
  \<open>acquire\<close> returns an object, releasing that object at once gives back the state before
  the \<open>acquire\<close>: the same active and inactive sequences in the same order (and the same
  remaining fields), the object being the last inactive one again.
\<close>

theorem C7_release_after_acquire:
  assumes "Pool_constructor True n a = Inr p0"
    and "acquire (pool_run p0 cs) = (Some obj, p')"
  shows "release obj p' = pool_run p0 cs \<and>
         activeObjects (release obj p') = activeObjects (pool_run p0 cs) \<and>
         inactiveObjects (release obj p') = inactiveObjects (pool_run p0 cs) \<and>
         last (inactiveObjects (release obj p')) = obj"
proof -
  let ?p = "pool_run p0 cs"
  from assms(1) have "pool_inv p0" by (rule constructor_inv)
  then have inv: "pool_inv ?p" by (rule pool_run_inv)
  from inv assms(2) have ne: "inactiveObjects ?p \<noteq> []" by (rule acquire_Some_nonempty)
  with assms(2) have obj: "obj = last (inactiveObjects ?p)"
    and p': "p' = ?p\<lparr>inactiveObjects := butlast (inactiveObjects ?p),
                     activeObjects := activeObjects ?p @ [obj]\<rparr>"
    by (auto simp: acquire_nonempty)
  from ne obj have mem: "obj \<in> set (inactiveObjects ?p)" by simp
  with inv have notact: "obj \<notin> set (activeObjects ?p)" by (auto simp: pool_inv_def)
  from ne obj have app: "butlast (inactiveObjects ?p) @ [obj] = inactiveObjects ?p" by simp
  from inv have "distinct (inactiveObjects ?p)" by (simp add: pool_inv_def)
  then have "distinct (butlast (inactiveObjects ?p) @ [obj])" by (simp only: app)
  then have notbut: "obj \<notin> set (butlast (inactiveObjects ?p))" by simp
  have idx: "indexOf (activeObjects ?p @ [obj]) obj > -1" by (simp add: indexOf_gt_iff)
  have rel: "release obj p' = ?p"
    unfolding p' release_def Let_def
    using idx notact notbut app by (simp add: splice1_last indexOf_absent)
  show ?thesis using rel obj by simp
qed

subsection \<open>Pool: the claims at a pool of capacity two\<close>

theorem C1_acquire_until_exhausted_witness:
  "Pool_constructor True 2 0 =
     Inr \<lparr>allObjects = [0, 1], activeObjects = [], inactiveObjects = [0, 1],
          maxSize = 2, nextObject = 2\<rparr> \<and>
   (\<exists>obj. fst (acquire (acquire_times 1 \<lparr>allObjects = [0, 1], activeObjects = [],
      inactiveObjects = [0, 1], maxSize = 2, nextObject = 2\<rparr>)) = Some obj) \<and>
   fst (acquire (acquire_times 2 \<lparr>allObjects = [0, 1], activeObjects = [],
      inactiveObjects = [0, 1], maxSize = 2, nextObject = 2\<rparr>)) = None \<and>
   Pool_length (acquire_times 3 \<lparr>allObjects = [0, 1], activeObjects = [],
      inactiveObjects = [0, 1], maxSize = 2, nextObject = 2\<rparr>) = 2"
proof -
  let ?p = "\<lparr>allObjects = [0, 1], activeObjects = [], inactiveObjects = [0, 1],
             maxSize = 2, nextObject = 2\<rparr>"
  have h: "Pool_constructor True 2 0 = Inr ?p"
    by (simp add: Pool_constructor_def init_def createObject_def numeral_2_eq_2)
  have "(1::nat) < 2" by simp
  with C1_acquire_until_exhausted [OF h] h show ?thesis by blast
qed

theorem C2_partition_invariant_witness:
  "Pool_constructor True 2 0 =
     Inr \<lparr>allObjects = [0, 1], activeObjects = [], inactiveObjects = [0, 1],
          maxSize = 2, nextObject = 2\<rparr> \<and>
   pool_run \<lparr>allObjects = [0, 1], activeObjects = [], inactiveObjects = [0, 1],
          maxSize = 2, nextObject = 2\<rparr>
      [Acquire, Release 1, Release 5, Acquire, Acquire, Acquire, Release 0] =
     \<lparr>allObjects = [0, 1], activeObjects = [1], inactiveObjects = [0],
          maxSize = 2, nextObject = 2\<rparr> \<and>
   set [1::nat] \<inter> set [0] = {} \<and> set [1::nat] \<union> set [0] = set [0, 1] \<and>
   length [0::nat, 1] \<le> 2"
proof -
  let ?p = "\<lparr>allObjects = [0, 1], activeObjects = [], inactiveObjects = [0, 1],
             maxSize = 2, nextObject = 2\<rparr>"
  let ?cs = "[Acquire, Release 1, Release 5, Acquire, Acquire, Acquire, Release 0]"
  have h: "Pool_constructor True 2 0 = Inr ?p"
    by (simp add: Pool_constructor_def init_def createObject_def numeral_2_eq_2)
  have run: "pool_run ?p ?cs =
     \<lparr>allObjects = [0, 1], activeObjects = [1], inactiveObjects = [0],
          maxSize = 2, nextObject = 2\<rparr>"
    by (simp add: pool_run_def acquire_def release_def splice1_def Let_def)
  from C2_partition_invariant [OF h, of ?cs] h run show ?thesis by simp
qed

theorem C7_release_after_acquire_witness:
  "Pool_constructor True 2 0 =
     Inr \<lparr>allObjects = [0, 1], activeObjects = [], inactiveObjects = [0, 1],
          maxSize = 2, nextObject = 2\<rparr> \<and>
   acquire (pool_run \<lparr>allObjects = [0, 1], activeObjects = [], inactiveObjects = [0, 1],
          maxSize = 2, nextObject = 2\<rparr> [Acquire, Release 1, Release 5, Acquire]) =
     (Some 0, \<lparr>allObjects = [0, 1], activeObjects = [1, 0], inactiveObjects = [],
          maxSize = 2, nextObject = 2\<rparr>) \<and>
   release 0 \<lparr>allObjects = [0, 1], activeObjects = [1, 0], inactiveObjects = [],
          maxSize = 2, nextObject = 2\<rparr> =
     pool_run \<lparr>allObjects = [0, 1], activeObjects = [], inactiveObjects = [0, 1],
          maxSize = 2, nextObject = 2\<rparr> [Acquire, Release 1, Release 5, Acquire]"
proof -
  let ?p = "\<lparr>allObjects = [0, 1], activeObjects = [], inactiveObjects = [0, 1],
             maxSize = 2, nextObject = 2\<rparr>"
  let ?cs = "[Acquire, Release 1, Release 5, Acquire]"
  have h: "Pool_constructor True 2 0 = Inr ?p"
    by (simp add: Pool_constructor_def init_def createObject_def numeral_2_eq_2)
  have acq: "acquire (pool_run ?p ?cs) =
     (Some 0, \<lparr>allObjects = [0, 1], activeObjects = [1, 0], inactiveObjects = [],
          maxSize = 2, nextObject = 2\<rparr>)"
    by (simp add: pool_run_def acquire_def release_def splice1_def Let_def)
  from C7_release_after_acquire [OF h acq] h acq show ?thesis by simp
qed

section \<open>Vector: lemmas\<close>

lemma processArgs_vector: "processArgs dbg [VectorObj w] = Inr (0, 0)"
  by (simp add: processArgs_def destructure_def)

lemma processArgs_scalar: "processArgs dbg [Num s] = Inr (s, s)"
  by (simp add: processArgs_def destructure_def)

lemma processArgs_two: "processArgs dbg [Num a, Num b] = Inr (a, b)"
  by (simp add: processArgs_def destructure_def)

lemma processArgs_pair: "processArgs dbg [Array [Num a, Num b]] = Inr (a, b)"
  by (simp add: processArgs_def destructure_def)


section \<open>Vector: the claims\<close>

text \<open>
  C3, evaluated on the code. \<open>processArgs\<close> reads a \<open>Vector\<close> argument through \<open>x[0]\<close>,
  \<open>x[1]\<close> and \<open>x.length\<close>, which a \<open>Vector\<close> instance does not have, so the pair it
  returns is \<open>(0, 0)\<close>: \<open>v.add(w)\<close> and \<open>v.subtract(w)\<close> leave \<open>v\<close> as it is, for every
  \<open>v\<close> and \<open>w\<close>, where the claim has the sum and the difference by components. At
  \<open>v = (1, 2)\<close>, \<open>w = (3, 4)\<close> the result is \<open>(1, 2)\<close>, not \<open>(4, 6)\<close> or \<open>(-2, -2)\<close>.
  A scalar is broadcast as the claim says.
\<close>

theorem C3_add_vector_argument_ignored:
  "Vector_add dbg [VectorObj w] v = Inr v \<and>
   Vector_subtract dbg [VectorObj w] v = Inr v \<and>
   Vector_add dbg [VectorObj (3, 4)] (1, 2) = Inr (1, 2) \<and>
   Vector_add dbg [VectorObj (3, 4)] (1, 2) \<noteq> Inr (1 + 3, 2 + 4) \<and>
   Vector_subtract dbg [VectorObj (3, 4)] (1, 2) \<noteq> Inr (1 - 3, 2 - 4) \<and>
   Vector_add dbg [Num s] v = Inr (fst v + s, snd v + s)"
  by (simp add: Vector_add_def Vector_subtract_def processArgs_vector processArgs_scalar
      bindE_def set_x_def set_y_def get_x_def get_y_def)

text \<open>
  C8. \<open>divide\<close> never fails on a divisor of one of the accepted forms, and a component
  whose divisor component is zero keeps its value: stated for the pair \<open>processArgs\<close>
  makes of any argument list, and for a scalar, two numbers, an array of two numbers
  and a vector. A zero scalar, the array \<open>[0, 0]\<close>, the numbers \<open>0, 0\<close> and a zero
  vector leave both components as they are.
\<close>

theorem C8_divide_by_zero_component_is_noop:
  "(processArgs dbg args = Inr (dx, dy) \<longrightarrow>
      (\<exists>v'. Vector_divide dbg args v = Inr v' \<and>
            (dx = 0 \<longrightarrow> get_x v' = get_x v) \<and> (dy = 0 \<longrightarrow> get_y v' = get_y v) \<and>
            (dx \<noteq> 0 \<longrightarrow> get_x v' = get_x v / dx) \<and> (dy \<noteq> 0 \<longrightarrow> get_y v' = get_y v / dy))) \<and>
   (\<exists>v'. Vector_divide dbg [Num a, Num b] v = Inr v' \<and>
         (a = 0 \<longrightarrow> get_x v' = get_x v) \<and> (b = 0 \<longrightarrow> get_y v' = get_y v)) \<and>
   (\<exists>v'. Vector_divide dbg [Array [Num a, Num b]] v = Inr v' \<and>
         (a = 0 \<longrightarrow> get_x v' = get_x v) \<and> (b = 0 \<longrightarrow> get_y v' = get_y v)) \<and>
   (\<exists>v'. Vector_divide dbg [VectorObj (a, b)] v = Inr v' \<and>
         (a = 0 \<longrightarrow> get_x v' = get_x v) \<and> (b = 0 \<longrightarrow> get_y v' = get_y v)) \<and>
   (\<exists>v'. Vector_divide dbg [Num s] v = Inr v' \<and> (s = 0 \<longrightarrow> v' = v)) \<and>
   Vector_divide dbg [Num 0] v = Inr v \<and>
   Vector_divide dbg [Array [Num 0, Num 0]] v = Inr v \<and>
   Vector_divide dbg [Num 0, Num 0] v = Inr v \<and>
   Vector_divide dbg [VectorObj (0, 0)] v = Inr v"
proof -
  have general: "processArgs dbg args = Inr (dx, dy) \<longrightarrow>
      (\<exists>v'. Vector_divide dbg args v = Inr v' \<and>
            (dx = 0 \<longrightarrow> get_x v' = get_x v) \<and> (dy = 0 \<longrightarrow> get_y v' = get_y v) \<and>
            (dx \<noteq> 0 \<longrightarrow> get_x v' = get_x v / dx) \<and> (dy \<noteq> 0 \<longrightarrow> get_y v' = get_y v / dy))"
    by (simp add: Vector_divide_def bindE_def set_x_def set_y_def get_x_def get_y_def Let_def)
  have two: "\<exists>v'. Vector_divide dbg [Num a, Num b] v = Inr v' \<and>
         (a = 0 \<longrightarrow> get_x v' = get_x v) \<and> (b = 0 \<longrightarrow> get_y v' = get_y v)"
    by (simp add: Vector_divide_def processArgs_two bindE_def set_x_def set_y_def
        get_x_def get_y_def Let_def)
  have pair: "\<exists>v'. Vector_divide dbg [Array [Num a, Num b]] v = Inr v' \<and>
         (a = 0 \<longrightarrow> get_x v' = get_x v) \<and> (b = 0 \<longrightarrow> get_y v' = get_y v)"
    by (simp add: Vector_divide_def processArgs_pair bindE_def set_x_def set_y_def
        get_x_def get_y_def Let_def)
  have vec: "Vector_divide dbg [VectorObj w] v = Inr v" for w
    by (simp add: Vector_divide_def processArgs_vector bindE_def)
  have scalar: "\<exists>v'. Vector_divide dbg [Num s] v = Inr v' \<and> (s = 0 \<longrightarrow> v' = v)"
    by (cases "s = 0") (simp_all add: Vector_divide_def processArgs_scalar bindE_def Let_def)
  have zero: "Vector_divide dbg [Num 0] v = Inr v"
    by (simp add: Vector_divide_def processArgs_scalar bindE_def)
  have zeros: "Vector_divide dbg [Array [Num 0, Num 0]] v = Inr v"
    by (simp add: Vector_divide_def processArgs_pair bindE_def)
  have zero2: "Vector_divide dbg [Num 0, Num 0] v = Inr v"
    by (simp add: Vector_divide_def processArgs_two bindE_def)
  show ?thesis
    using general two pair vec scalar zero zeros zero2 by simp
qed

theorem C8_divide_by_zero_component_is_noop_witness:
  "processArgs True [Array [Num 0, Num 4]] = Inr (0, 4) \<and>
   Vector_divide True [Array [Num 0, Num 4]] (6, 8) = Inr (6, 2) \<and>
   Vector_divide True [Num 0] (6, 8) = Inr (6, 8) \<and>
   Vector_divide True [Array [Num 0, Num 0]] (6, 8) = Inr (6, 8)"
proof -
  have h: "processArgs True [Array [Num 0, Num 4]] = Inr (0, 4)"
    by (rule processArgs_pair)
  from C8_divide_by_zero_component_is_noop [of True "[Array [Num 0, Num 4]]" 0 4 "(6, 8)" 0 0 0] h
  have "\<exists>v'. Vector_divide True [Array [Num 0, Num 4]] (6, 8) = Inr v' \<and>
          get_x v' = 6 \<and> get_y v' = 8 / 4"
    by (simp add: get_x_def get_y_def)
  then have d: "Vector_divide True [Array [Num 0, Num 4]] (6, 8) = Inr (6, 2)"
    by (auto simp: get_x_def get_y_def)
  from C8_divide_by_zero_component_is_noop [of True "[Array [Num 0, Num 4]]" 0 4 "(6, 8)" 0 0 0]
  have "Vector_divide True [Num 0] (6, 8) = Inr (6, 8) \<and>
        Vector_divide True [Array [Num 0, Num 0]] (6, 8) = Inr (6, 8)"
    by blast
  with h d show ?thesis by simp
qed


section \<open>Particle and Emitter: lemmas\<close>

lemma new_Vector_eq:
  "new_Vector a b w =
     Inr (nextVector w, w\<lparr>vectors := (vectors w)(nextVector w := (a, b)),
                           nextVector := Suc (nextVector w)\<rparr>)"
  by (simp add: new_Vector_def Vector_constructor_def processArgs_two bindE_def
      set_x_def set_y_def)

lemma clone_eq:
  "clone r w =
     Inr (nextVector w, w\<lparr>vectors := (vectors w)(nextVector w := vectors w r),
                           nextVector := Suc (nextVector w)\<rparr>)"
  by (simp add: clone_def new_Vector_eq get_x_def get_y_def)

lemma call_add_vector: "vector_call (Vector_add dbg [vector_arg r w']) this w = Inr w"
  by (simp add: vector_call_def vector_arg_def Vector_add_def processArgs_vector bindE_def
      set_x_def set_y_def get_x_def get_y_def)

lemma call_subtract_vector: "vector_call (Vector_subtract dbg [vector_arg r w']) this w = Inr w"
  by (simp add: vector_call_def vector_arg_def Vector_subtract_def processArgs_vector bindE_def
      set_x_def set_y_def get_x_def get_y_def)

lemma call_multiply_scalar:
  "vector_call (Vector_multiply dbg [Num s]) this w =
     Inr (w\<lparr>vectors := (vectors w)(this := (fst (vectors w this) * s, snd (vectors w this) * s))\<rparr>)"
  by (simp add: vector_call_def Vector_multiply_def processArgs_scalar bindE_def
      set_x_def set_y_def get_x_def get_y_def)

lemma call_copy_vector:
  "vector_call (Vector_copy dbg (vector_arg r w')) this w =
     Inr (w\<lparr>vectors := (vectors w)(this := vectors w' r)\<rparr>)"
  by (simp add: vector_call_def vector_arg_def Vector_copy_def Vector_set_def processArgs_two
      bindE_def set_x_def set_y_def get_x_def get_y_def)

lemma call_divide_scalar:
  "vector_call (Vector_divide dbg [Num s]) this w =
     Inr (w\<lparr>vectors := (vectors w)(this :=
            (if s \<noteq> 0 then (fst (vectors w this) / s, snd (vectors w this) / s)
             else vectors w this))\<rparr>)"
  by (simp add: vector_call_def Vector_divide_def processArgs_scalar bindE_def
      set_x_def set_y_def get_x_def get_y_def Let_def)

lemma create_vector: "Vector_create dbg [vector_arg r w] = Inr (0, 0)"
  by (simp add: Vector_create_def Vector_constructor_def vector_arg_def processArgs_vector
      processArgs_two bindE_def set_x_def set_y_def)

lemma applyForce_eq:
  "applyForce force this w =
     Inr (if isStatic (options_of this w) then w
          else w\<lparr>vectors := (vectors w)(nextVector w := (0, 0)),
                 nextVector := Suc (nextVector w)\<rparr>)"
  by (simp add: applyForce_def create_vector new_Vector_eq call_divide_scalar call_add_vector
      bindE_def get_x_def get_y_def)

lemma eulerUpdate_frame:
  "\<exists>w1. eulerUpdate p dt w = Inr ((Suc (nextVector w), nextVector w), w1) \<and>
        particles w1 = particles w \<and> optionss w1 = optionss w \<and> calls w1 = calls w \<and>
        pool w1 = pool w \<and> DEBUG w1 = DEBUG w"
  by (simp add: eulerUpdate_def clone_eq call_add_vector applyForce_eq call_multiply_scalar
      options_of_def bindE_def Let_def)

lemma update_effect:
  "\<exists>w'. update dt p w = Inr w' \<and>
        options (particles w' p) = options (particles w p) \<and>
        lifespan (options_of p w') = lifespan (options_of p w) - dt \<and>
        (lifespan (options_of p w) - dt < 0 \<longrightarrow>
           \<not> active (particles w' p) \<and> callback (particles w' p) = None \<and>
           calls w' = calls w @ (case callback (particles w p) of
                                  Some cb \<Rightarrow> [(cb, p)] | None \<Rightarrow> [])) \<and>
        (\<not> lifespan (options_of p w) - dt < 0 \<longrightarrow>
           active (particles w' p) = active (particles w p) \<and>
           callback (particles w' p) = callback (particles w p) \<and>
           calls w' = calls w)"
proof -
  obtain w1 where e: "eulerUpdate p dt w = Inr ((Suc (nextVector w), nextVector w), w1)"
    and frame: "particles w1 = particles w" "optionss w1 = optionss w" "calls w1 = calls w"
    using eulerUpdate_frame [of p dt w] by blast
  show ?thesis
    by (simp add: update_def e frame bindE_def Let_def update_particle_def update_options_def
        destroy_def invoke_def options_of_def split: option.splits callback.splits)
qed

lemma update_all_after_death:
  "callback (particles w p) = None \<Longrightarrow>
   \<exists>w'. update_all dts p w = Inr w' \<and> calls w' = calls w \<and> callback (particles w' p) = None"
proof (induction dts arbitrary: w)
  case Nil
  then show ?case by simp
next
  case (Cons dt dts)
  obtain w1 where u: "update dt p w = Inr w1"
    and c: "callback (particles w1 p) = None" and k: "calls w1 = calls w"
    using update_effect [of dt p w] Cons.prems by (cases "lifespan (options_of p w) - dt < 0") auto
  from Cons.IH [OF c] u k show ?case by simp
qed

lemma eulerUpdate_eq:
  "eulerUpdate p dt w =
     Inr ((Suc (nextVector w), nextVector w),
          (let n = nextVector w; P = particles w p;
               vs1 = (vectors w)(n := vectors w (position P), Suc n := vectors w (position P));
               vs2 = (if isStatic (options_of p w) then vs1 else vs1(Suc (Suc n) := (0, 0)))
           in w\<lparr>vectors := vs2(acceleration P := (0, 0)),
                 nextVector := (if isStatic (options_of p w) then Suc (Suc n)
                                else Suc (Suc (Suc n)))\<rparr>))"
  by (simp add: eulerUpdate_def clone_eq call_add_vector applyForce_eq call_multiply_scalar
      options_of_def bindE_def Let_def)

lemma destroy_frame:
  "vectors (destroy p w) = vectors w \<and>
   position (particles (destroy p w) q) = position (particles w q) \<and>
   prevPosition (particles (destroy p w) q) = prevPosition (particles w q) \<and>
   velocity (particles (destroy p w) q) = velocity (particles w q) \<and>
   acceleration (particles (destroy p w) q) = acceleration (particles w q)"
  by (simp add: destroy_def invoke_def update_particle_def Let_def
      split: option.splits callback.splits)

lemma processArgs_array_of_vector:
  "processArgs dbg [Array [VectorObj v]] = (if dbg then Inl InvalidArgumentError else Inr (0, 0))"
  by (simp add: processArgs_def destructure_def)

lemma dot_eq:
  "dot this arg w = (if DEBUG w then Inl InvalidArgumentError else Inr 0)"
  by (simp add: dot_def Vector_dot_def Vector_create_def Vector_constructor_def vector_arg_def
      processArgs_array_of_vector processArgs_two bindE_def set_x_def set_y_def get_x_def get_y_def)

lemma call_normalize:
  "vector_call (Vector_normalize dbg) this w =
     Inr (w\<lparr>vectors := (vectors w)(this :=
            (if magnitude (vectors w this) \<noteq> 0
             then (fst (vectors w this) * (1 / magnitude (vectors w this)),
                   snd (vectors w this) * (1 / magnitude (vectors w this)))
             else vectors w this))\<rparr>)"
  by (simp add: vector_call_def Vector_normalize_def Vector_multiply_def processArgs_scalar
      bindE_def set_x_def set_y_def get_x_def get_y_def Let_def)

lemma randomDirection_eq:
  "randomDirection dbg rnd = Inr (cos (rnd * pi * 2), sin (rnd * pi * 2))"
  by (simp add: randomDirection_def Vector_constructor_def processArgs_two bindE_def
      set_x_def set_y_def Let_def)

lemma checkCollision_frame:
  "(\<forall>w'. checkCollision rnd other this w = Inr w' \<longrightarrow>
      particles w' = particles w \<and> optionss w' = optionss w \<and>
      (\<forall>r. r \<noteq> zeroVector \<longrightarrow> r < nextVector w \<longrightarrow> vectors w' r = vectors w r)) \<and>
   (\<forall>e. checkCollision rnd other this w = Inl e \<longrightarrow> e = InvalidArgumentError \<and> DEBUG w)"
  by (simp add: checkCollision_def call_copy_vector call_subtract_vector call_add_vector
      call_multiply_scalar call_normalize randomDirection_eq new_Vector_eq dot_eq
      bindE_def Let_def get_x_def get_y_def)

lemma kernel_after_setSmoothingRadius:
  "poly6KernelSq r2 (setSmoothingRadius h w) = Poly6_spec h r2"
proof -
  have h2: "h * h = h ^ 2" by (simp add: power2_eq_square)
  have h8: "h * h * (h * h) * (h * h * (h * h)) = h ^ 8"
    by (simp add: power_def numeral_eq_Suc)
  have c: "(h ^ 2 - r2) * (h ^ 2 - r2) * (h ^ 2 - r2) = (h ^ 2 - r2) ^ 3"
    by (simp add: power3_eq_cube)
  have "poly6KernelSq r2 (setSmoothingRadius h w) =
      (if r2 > h ^ 2 then 0
       else 4 / pi / (h ^ 8) * ((h ^ 2 - r2) * (h ^ 2 - r2) * (h ^ 2 - r2)))"
    by (simp add: poly6KernelSq_def setSmoothingRadius_def Let_def h2 h8 mult.assoc)
  then show ?thesis
    by (simp add: Poly6_spec_def c divide_divide_eq_left not_less)
qed










lemmas example_simps = example_world_def example_vectors_def example_particles_def
  example_options_def zeroVector_def

lemma checkCollision_example_debug:
  "checkCollision rnd 1 0 (example_world True) = Inl InvalidArgumentError"
  by (simp add: checkCollision_def call_copy_vector call_subtract_vector call_add_vector
      call_multiply_scalar call_normalize dot_eq bindE_def Let_def magnitude_def magnitudeSq_def
      get_x_def get_y_def options_of_def example_simps)

lemma checkCollision_example_release:
  "result_of DEBUG (checkCollision rnd 1 0 (example_world False)) = Inr False"
  by (simp add: checkCollision_def call_copy_vector call_subtract_vector call_add_vector
      call_multiply_scalar call_normalize dot_eq bindE_def Let_def magnitude_def magnitudeSq_def
      get_x_def get_y_def options_of_def example_simps result_of_def)


section \<open>Particle and Emitter: the claims\<close>

text \<open>
  C4, evaluated on the code. The claim has \<open>newPosition = p + u\<close>, the acceleration
  gaining \<open>g / m\<close> and the velocity becoming \<open>u + acceleration \<times> dt\<^sup>2\<close>. In the code
  \<open>newPosition.add(p.velocity)\<close>, \<open>Vector.divide(force, mass)\<close>,
  \<open>acceleration.add(...)\<close> and \<open>velocity.add(...)\<close> all pass a \<open>Vector\<close> to
  \<open>processArgs\<close>, which makes \<open>(0, 0)\<close> of it. So for every particle whose vectors are
  allocated and whose velocity is not the object that is its acceleration, and every
  \<open>dt\<close>, one \<open>update\<close> commits the old position as previous position and as new
  position, leaves the velocity as it was and zeroes the acceleration: the particle
  does not move and gravity has no effect.
\<close>

theorem C4_update_leaves_position_and_velocity:
  assumes "position (particles w p) < nextVector w"
    and "velocity (particles w p) < nextVector w"
    and "acceleration (particles w p) < nextVector w"
    and "velocity (particles w p) \<noteq> acceleration (particles w p)"
  shows "\<exists>w'. update dt p w = Inr w' \<and>
           prevPosition_of p w' = position_of p w \<and>
           position_of p w' = position_of p w \<and>
           velocity_of p w' = velocity_of p w \<and>
           acceleration_of p w' = (0, 0)"
proof -
  define n where "n = nextVector w"
  obtain w1 where e: "eulerUpdate p dt w = Inr ((Suc n, n), w1)"
    and w1: "w1 = (let P = particles w p;
               vs1 = (vectors w)(n := vectors w (position P), Suc n := vectors w (position P));
               vs2 = (if isStatic (options_of p w) then vs1 else vs1(Suc (Suc n) := (0, 0)))
           in w\<lparr>vectors := vs2(acceleration P := (0, 0)),
                 nextVector := (if isStatic (options_of p w) then Suc (Suc n)
                                else Suc (Suc (Suc n)))\<rparr>)"
    by (simp add: eulerUpdate_eq n_def Let_def)
  define w2 where "w2 = update_particle p (\<lambda>P. P\<lparr>prevPosition := n\<rparr>) w1"
  define w3 where "w3 = update_particle p (\<lambda>P. P\<lparr>position := Suc n\<rparr>) w2"
  define opts where "opts = options (particles w3 p)"
  define w4 where "w4 = update_options opts (\<lambda>Op. Op\<lparr>lifespan := lifespan Op - dt\<rparr>) w3"
  define w5 where "w5 = update_options opts
      (\<lambda>Op. Op\<lparr>alpha := lifespan Op / (2 * lifeRange_max Op)\<rparr>) w4"
  have u: "update dt p w = Inr (if lifespan (optionss w5 opts) < 0 then destroy p w5 else w5)"
    by (simp add: update_def e bindE_def Let_def w2_def w3_def opts_def w4_def w5_def)
  have parts: "particles w5 p = (particles w p)\<lparr>prevPosition := n, position := Suc n\<rparr>"
    by (simp add: w5_def w4_def w3_def w2_def w1 update_options_def update_particle_def Let_def)
  have vs: "vectors w5 = vectors w1"
    by (simp add: w5_def w4_def w3_def w2_def update_options_def update_particle_def)
  have w5: "prevPosition_of p w5 = position_of p w \<and> position_of p w5 = position_of p w \<and>
      velocity_of p w5 = velocity_of p w \<and> acceleration_of p w5 = (0, 0)"
    using assms
    by (simp add: parts vs w1 n_def Let_def position_of_def prevPosition_of_def velocity_of_def
        acceleration_of_def)
  have d: "prevPosition_of p (destroy p w5) = prevPosition_of p w5 \<and>
      position_of p (destroy p w5) = position_of p w5 \<and>
      velocity_of p (destroy p w5) = velocity_of p w5 \<and>
      acceleration_of p (destroy p w5) = acceleration_of p w5"
    by (simp add: destroy_frame position_of_def prevPosition_of_def velocity_of_def
        acceleration_of_def)
  show ?thesis
    using u w5 d by (cases "lifespan (optionss w5 opts) < 0") simp_all
qed


theorem C4_update_leaves_position_and_velocity_witness:
  "position (particles (example_world True) 0) < nextVector (example_world True) \<and>
   velocity (particles (example_world True) 0) < nextVector (example_world True) \<and>
   acceleration (particles (example_world True) 0) < nextVector (example_world True) \<and>
   velocity (particles (example_world True) 0) \<noteq> acceleration (particles (example_world True) 0) \<and>
   position_of 0 (example_world True) = (1/2, 0) \<and>
   velocity_of 0 (example_world True) = (-1, 0) \<and>
   (\<exists>w'. update 1 0 (example_world True) = Inr w' \<and>
         prevPosition_of 0 w' = (1/2, 0) \<and> position_of 0 w' = (1/2, 0) \<and>
         velocity_of 0 w' = (-1, 0) \<and> acceleration_of 0 w' = (0, 0))"
proof -
  let ?w = "example_world True"
  have h: "position (particles ?w 0) < nextVector ?w" "velocity (particles ?w 0) < nextVector ?w"
    "acceleration (particles ?w 0) < nextVector ?w"
    "velocity (particles ?w 0) \<noteq> acceleration (particles ?w 0)"
    by (simp_all add: example_simps)
  have v: "position_of 0 ?w = (1/2, 0)" "velocity_of 0 ?w = (-1, 0)"
    by (simp_all add: example_simps position_of_def velocity_of_def)
  from C4_update_leaves_position_and_velocity [OF h, of 1] v
  have "\<exists>w'. update 1 0 ?w = Inr w' \<and>
         prevPosition_of 0 w' = (1/2, 0) \<and> position_of 0 w' = (1/2, 0) \<and>
         velocity_of 0 w' = (-1, 0) \<and> acceleration_of 0 w' = (0, 0)"
    by simp
  with h v show ?thesis by blast
qed

text \<open>
  C5, evaluated on the code. The claim has the impulse applied and, for equal masses,
  the velocities swapped. In the code \<open>vRel.dot(collisionNormal)\<close> wraps its argument in
  an array that \<open>processArgs\<close> rejects: with \<open>__DEBUG__\<close> set it throws
  \<open>InvalidArgumentError\<close>, otherwise the product is \<open>0\<close> and the branch of the impulse is
  not taken. So whenever \<open>checkCollision\<close> returns, both velocities are what they were
  (for particles whose velocity is an allocated vector other than \<open>zeroVector\<close>), and
  when it does not return it threw \<open>InvalidArgumentError\<close> in debug mode.
\<close>

theorem C5_checkCollision_applies_no_impulse:
  assumes "velocity (particles w this) \<noteq> zeroVector"
    and "velocity (particles w this) < nextVector w"
    and "velocity (particles w other) \<noteq> zeroVector"
    and "velocity (particles w other) < nextVector w"
  shows "(\<forall>w'. checkCollision rnd other this w = Inr w' \<longrightarrow>
            velocity_of this w' = velocity_of this w \<and>
            velocity_of other w' = velocity_of other w) \<and>
         (\<forall>e. checkCollision rnd other this w = Inl e \<longrightarrow> e = InvalidArgumentError \<and> DEBUG w)"
  using assms checkCollision_frame [of rnd other this w]
  by (simp add: velocity_of_def)


text \<open>
  At the store with two particles (equal masses, particle \<open>0\<close> at \<open>(1/2, 0)\<close> with
  velocity \<open>(-1, 0)\<close>, particle \<open>1\<close> at \<open>(1, 0)\<close> with velocity \<open>(1, 0)\<close>, radii \<open>1\<close>,
  so that the relative velocity along the normal is \<open>-2\<close>): the claim has the velocities
  \<open>(1, 0)\<close> and \<open>(-1, 0)\<close> afterwards.
\<close>

theorem C5_checkCollision_applies_no_impulse_witness:
  "velocity (particles (example_world False) 0) \<noteq> zeroVector \<and>
   velocity (particles (example_world False) 0) < nextVector (example_world False) \<and>
   velocity (particles (example_world False) 1) \<noteq> zeroVector \<and>
   velocity (particles (example_world False) 1) < nextVector (example_world False) \<and>
   position_of 0 (example_world False) = (1/2, 0) \<and>
   position_of 1 (example_world False) = (1, 0) \<and>
   velocity_of 0 (example_world False) = (-1, 0) \<and>
   velocity_of 1 (example_world False) = (1, 0) \<and>
   (\<exists>w'. checkCollision 0 1 0 (example_world False) = Inr w' \<and>
         velocity_of 0 w' = (-1, 0) \<and> velocity_of 1 w' = (1, 0)) \<and>
   checkCollision 0 1 0 (example_world True) = Inl InvalidArgumentError"
proof -
  have h: "velocity (particles (example_world False) 0) \<noteq> zeroVector"
    "velocity (particles (example_world False) 0) < nextVector (example_world False)"
    "velocity (particles (example_world False) 1) \<noteq> zeroVector"
    "velocity (particles (example_world False) 1) < nextVector (example_world False)"
    by (simp_all add: example_simps)
  have v: "position_of 0 (example_world False) = (1/2, 0)"
    "position_of 1 (example_world False) = (1, 0)"
    "velocity_of 0 (example_world False) = (-1, 0)"
    "velocity_of 1 (example_world False) = (1, 0)"
    by (simp_all add: example_simps velocity_of_def position_of_def)
  obtain w' where r: "checkCollision 0 1 0 (example_world False) = Inr w'"
    using checkCollision_example_release [of 0]
    by (cases "checkCollision 0 1 0 (example_world False)") (simp_all add: result_of_def)
  from C5_checkCollision_applies_no_impulse [OF h, of 0] r v
  have "velocity_of 0 w' = (-1, 0) \<and> velocity_of 1 w' = (1, 0)" by simp
  with h v r checkCollision_example_debug [of 0] show ?thesis by simp
qed


text \<open>
  C6 as stated fails: a live particle of lifespan \<open>1\<close> is not dead after two updates
  with \<open>dt = 1/2\<close>. Its lifespan is then \<open>0\<close>, which is not below \<open>0\<close>; it is still
  active and no callback was called.
\<close>

theorem C6_not_dead_after_two_updates:
  "(lifespan \<circ> options_of 0) (example_world True) = 1 \<and>
   is_active 0 (example_world True) \<and>
   result_of (lifespan \<circ> options_of 0) (update_all [1/2, 1/2] 0 (example_world True)) = Inr 0 \<and>
   result_of (dead 0) (update_all [1/2, 1/2] 0 (example_world True)) = Inr False \<and>
   result_of (is_active 0) (update_all [1/2, 1/2] 0 (example_world True)) = Inr True \<and>
   result_of calls (update_all [1/2, 1/2] 0 (example_world True)) = Inr []"
proof -
  let ?w = "example_world True"
  have start: "lifespan (options_of 0 ?w) = 1" "active (particles ?w 0)" "calls ?w = []"
    by (simp_all add: example_simps options_of_def)
  obtain w1 where u1: "update (1/2) 0 ?w = Inr w1"
    and l1: "lifespan (options_of 0 w1) = 1/2"
    and a1: "active (particles w1 0)" and k1: "calls w1 = []"
    using update_effect [of "1/2" 0 ?w] start by auto
  obtain w2 where u2: "update (1/2) 0 w1 = Inr w2"
    and l2: "lifespan (options_of 0 w2) = 0"
    and a2: "active (particles w2 0)" and k2: "calls w2 = []"
    using update_effect [of "1/2" 0 w1] l1 a1 k1 by auto
  have run: "update_all [1/2, 1/2] 0 ?w = Inr w2"
    by (simp add: u1 u2)
  show ?thesis
    unfolding run using start l2 a2 k2 by (simp add: result_of_def dead_def is_active_def)
qed

text \<open>
  C6, amended. For every live particle with lifespan \<open>1\<close> and a release callback: two
  updates with \<open>dt = 1/2\<close> leave it alive with lifespan \<open>1/2\<close> and then \<open>0\<close>, the
  callback kept and not called; the third update makes the lifespan \<open>-1/2\<close>, the
  particle inactive and dead, calls the callback with the particle, once, and clears
  it; whatever updates follow, the callback is not called again.
\<close>

theorem C6_dead_on_third_update:
  assumes "lifespan (options_of p w) = 1"
    and "active (particles w p)"
    and "callback (particles w p) = Some cb"
  shows "\<exists>w1 w2 w3.
           update (1/2) p w = Inr w1 \<and> update (1/2) p w1 = Inr w2 \<and>
           update (1/2) p w2 = Inr w3 \<and>
           lifespan (options_of p w1) = 1/2 \<and> is_active p w1 \<and> \<not> dead p w1 \<and>
           calls w1 = calls w \<and>
           lifespan (options_of p w2) = 0 \<and> is_active p w2 \<and> \<not> dead p w2 \<and>
           callback (particles w2 p) = Some cb \<and> calls w2 = calls w \<and>
           lifespan (options_of p w3) = - (1/2) \<and> \<not> is_active p w3 \<and> dead p w3 \<and>
           callback (particles w3 p) = None \<and> calls w3 = calls w @ [(cb, p)] \<and>
           (\<forall>dts. \<exists>w'. update_all dts p w3 = Inr w' \<and> calls w' = calls w @ [(cb, p)])"
proof -
  obtain w1 where u1: "update (1/2) p w = Inr w1"
    and l1: "lifespan (options_of p w1) = 1/2"
    and a1: "active (particles w1 p)" and c1: "callback (particles w1 p) = Some cb"
    and k1: "calls w1 = calls w"
    using update_effect [of "1/2" p w] assms by auto
  obtain w2 where u2: "update (1/2) p w1 = Inr w2"
    and l2: "lifespan (options_of p w2) = 0"
    and a2: "active (particles w2 p)" and c2: "callback (particles w2 p) = Some cb"
    and k2: "calls w2 = calls w"
    using update_effect [of "1/2" p w1] l1 a1 c1 k1 by auto
  obtain w3 where u3: "update (1/2) p w2 = Inr w3"
    and l3: "lifespan (options_of p w3) = - (1/2)"
    and a3: "\<not> active (particles w3 p)" and c3: "callback (particles w3 p) = None"
    and k3: "calls w3 = calls w @ [(cb, p)]"
    using update_effect [of "1/2" p w2] l2 a2 c2 k2 by auto
  have later: "\<exists>w'. update_all dts p w3 = Inr w' \<and> calls w' = calls w @ [(cb, p)]" for dts
    using update_all_after_death [OF c3, of dts] k3 by auto
  show ?thesis
    using u1 u2 u3 l1 l2 l3 a1 a2 a3 c2 c3 k1 k2 k3 later
    by (simp add: is_active_def dead_def)
qed


theorem C6_dead_on_third_update_witness:
  "lifespan (options_of 0 (example_world True)) = 1 \<and>
   active (particles (example_world True) 0) \<and>
   callback (particles (example_world True) 0) = Some (Callback 0) \<and>
   (\<exists>w3. update_all [1/2, 1/2, 1/2] 0 (example_world True) = Inr w3 \<and>
         dead 0 w3 \<and> \<not> is_active 0 w3 \<and> calls w3 = [(Callback 0, 0)])"
proof -
  let ?w = "example_world True"
  have h: "lifespan (options_of 0 ?w) = 1" "active (particles ?w 0)"
    "callback (particles ?w 0) = Some (Callback 0)"
    by (simp_all add: example_simps options_of_def)
  have k: "calls ?w = []" by (simp add: example_simps)
  from C6_dead_on_third_update [OF h] obtain w1 w2 w3 where
    "update (1/2) 0 ?w = Inr w1" "update (1/2) 0 w1 = Inr w2" "update (1/2) 0 w2 = Inr w3"
    "dead 0 w3" "\<not> is_active 0 w3" "calls w3 = calls ?w @ [(Callback 0, 0)]"
    by blast
  then have "update_all [1/2, 1/2, 1/2] 0 ?w = Inr w3 \<and>
         dead 0 w3 \<and> \<not> is_active 0 w3 \<and> calls w3 = [(Callback 0, 0)]"
    by (simp add: k)
  with h show ?thesis by blast
qed

text \<open>
  C9. For a smoothing radius \<open>h\<close> other than \<open>0\<close> and an array holding the one particle
  \<open>p\<close>, \<open>calculateDensities\<close> returns and has set the density of \<open>p\<close>'s options to its
  mass times \<open>W(0)\<close>, nothing added, the other fields of the options as they were;
  \<open>W\<close> is the Poly6 kernel of the specification, which the kernel of the code equals
  at every argument once the radius is set, with normalization \<open>4 / (\<pi> h\<^sup>8)\<close>.
\<close>

theorem C9_density_of_single_particle:
  assumes "h \<noteq> 0"
  shows "\<exists>w'. calculateDensities [p] h w = Inr w' \<and>
           density (options_of p w') = mass (options_of p w) * Poly6_spec h 0 \<and>
           optionss w' (options (particles w p)) =
             (optionss w (options (particles w p)))
               \<lparr>density := mass (options_of p w) * Poly6_spec h 0\<rparr> \<and>
           Poly6_spec h 0 = 4 / (pi * h ^ 8) * (h ^ 2) ^ 3 \<and>
           Particle_normalizationConstant w' = 4 / (pi * h ^ 8) \<and>
           Particle_h2 w' = h ^ 2 \<and>
           (\<forall>r2. poly6KernelSq r2 w' = Poly6_spec h r2)"
proof -
  define t where "t = nextVector w"
  define w0 where "w0 = w\<lparr>vectors := (vectors w)(t := (0, 0)), nextVector := Suc t\<rparr>"
  define w1 where "w1 = setSmoothingRadius h w0"
  define w2 where "w2 = update_options (options (particles w1 p))
      (\<lambda>Op. Op\<lparr>density := mass Op * poly6KernelSq 0 w1\<rparr>) w1"
  have k0: "poly6KernelSq 0 w1 = Poly6_spec h 0"
    unfolding w1_def by (rule kernel_after_setSmoothingRadius)
  have run: "calculateDensities [p] h w = Inr w2"
    by (simp add: calculateDensities_def new_Vector_eq bindE_def Let_def
        t_def w0_def w1_def w2_def)
  have same: "particles w1 = particles w" "optionss w1 = optionss w"
    by (simp_all add: w1_def w0_def setSmoothingRadius_def Let_def)
  have kern: "poly6KernelSq r2 w2 = Poly6_spec h r2" for r2
  proof -
    have "poly6KernelSq r2 w2 = poly6KernelSq r2 w1"
      by (simp add: w2_def update_options_def poly6KernelSq_def)
    then show ?thesis by (simp add: w1_def kernel_after_setSmoothingRadius)
  qed
  have norm: "Particle_normalizationConstant w2 = 4 / (pi * h ^ 8)"
  proof -
    have "h * h * (h * h) * (h * h * (h * h)) = h ^ 8"
      by (simp add: power_def numeral_eq_Suc)
    then show ?thesis
      by (simp add: w2_def w1_def update_options_def setSmoothingRadius_def Let_def
          divide_divide_eq_left mult.assoc)
  qed
  have h2: "Particle_h2 w2 = h ^ 2"
    by (simp add: w2_def w1_def update_options_def setSmoothingRadius_def Let_def
        power2_eq_square)
  have opt: "optionss w2 (options (particles w p)) =
      (optionss w (options (particles w p)))\<lparr>density := mass (options_of p w) * Poly6_spec h 0\<rparr>"
    by (simp add: w2_def update_options_def same k0 options_of_def)
  have dens: "density (options_of p w2) = mass (options_of p w) * Poly6_spec h 0"
    by (simp add: w2_def update_options_def same k0 options_of_def)
  have spec0: "Poly6_spec h 0 = 4 / (pi * h ^ 8) * (h ^ 2) ^ 3"
    by (simp add: Poly6_spec_def)
  show ?thesis
    using run dens opt spec0 norm h2 kern by blast
qed


theorem C9_density_of_single_particle_witness:
  "(1::real) \<noteq> 0 \<and> mass (options_of 0 (example_world True)) = 2 \<and>
   (\<exists>w'. calculateDensities [0] 1 (example_world True) = Inr w' \<and>
         density (options_of 0 w') = 2 * (4 / pi))"
proof -
  have h: "(1::real) \<noteq> 0" by simp
  have m: "mass (options_of 0 (example_world True)) = 2"
    by (simp add: example_simps options_of_def)
  from C9_density_of_single_particle [OF h, of 0 "example_world True"] m
  have "\<exists>w'. calculateDensities [0] 1 (example_world True) = Inr w' \<and>
         density (options_of 0 w') = 2 * (4 / pi)"
    by (auto simp: Poly6_spec_def)
  with h m show ?thesis by blast
qed




end
